theory Spec2Isabelle
  imports Complex_Main "HOL-Library.Word" "HOL-Library.AList"
begin

section \<open>Route policy: \<open>router::LoopRouter\<close> (loop\_router.cpp)\<close>

subsection \<open>Data\<close>

text \<open>
  Road identifiers are held as \<open>size_t\<close> in \<open>road_sequence_\<close>; every comparison of the
  router is carried out in \<open>size_t\<close> (the unsigned road id of a waypoint is converted).
\<close>

type_synonym size_t = "64 word"

text \<open>
  A C++ \<open>double\<close>, as far as the router looks at it: the only operation is the test
  \<open>distance <= 0.0\<close>, which is false on NaN.
\<close>

datatype double = Finite real | PosInf | NegInf | NaN

fun le_zero :: "double \<Rightarrow> bool" where
  "le_zero (Finite x) = (x \<le> 0)"
| "le_zero PosInf = False"
| "le_zero NegInf = True"
| "le_zero NaN = False"

fun gt_zero :: "double \<Rightarrow> bool" where
  "gt_zero (Finite x) = (0 < x)"
| "gt_zero PosInf = True"
| "gt_zero NegInf = False"
| "gt_zero NaN = False"

text \<open>
  \<open>carla::client::Waypoint\<close> is owned by the road database. The router and the lattice
  read its identifier and its road and lane identifiers.
\<close>

record CarlaWaypoint =
  GetId :: size_t
  GetRoadId :: size_t
  GetLaneId :: int

text \<open>
  The road topology behind \<open>waypoint->GetNext(distance)\<close>: the waypoints reachable from
  a waypoint within a distance, in the order the database lists them. Each call is
  recorded in a trace, so that the order of the query and of a throw can be stated.
\<close>

type_synonym topology = "CarlaWaypoint \<Rightarrow> double \<Rightarrow> CarlaWaypoint list"

type_synonym trace = "(CarlaWaypoint \<times> double) list"

definition GetNext ::
  "topology \<Rightarrow> CarlaWaypoint \<Rightarrow> double \<Rightarrow> trace \<Rightarrow> CarlaWaypoint list \<times> trace" where
  "GetNext topo waypoint distance tr = (topo waypoint distance, tr @ [(waypoint, distance)])"

text \<open>
  The two exceptions of loop\_router.cpp, with their messages. \<open>std::out_of_range\<close> is
  the NotOnRoute kind of the specification, \<open>std::runtime_error\<close> its InvalidArgument.
\<close>

datatype exception = out_of_range string | runtime_error string

record LoopRouter =
  road_sequence :: "size_t list"

text \<open>The constructor \<open>LoopRouter::LoopRouter()\<close>: the only way to build a router.\<close>

definition LoopRouter :: LoopRouter where
  "LoopRouter = \<lparr> road_sequence =
     [47, 558, 48, 887, 49, 717, 50, 42, 276, 43, 35, 636, 36,
      540, 37, 1021, 38, 678, 39, 728, 40, 841, 41, 6, 45, 103,
      46, 659] \<rparr>"

subsection \<open>Operations\<close>

text \<open>
  \<open>std::find(first, last, value)\<close> over a vector: the position of the first element equal
  to \<open>value\<close>, and \<open>length xs\<close> (the \<open>end()\<close> iterator) when there is none.
\<close>

fun std_find :: "'a list \<Rightarrow> 'a \<Rightarrow> nat" where
  "std_find [] v = 0"
| "std_find (x # xs) v = (if x = v then 0 else Suc (std_find xs v))"

text \<open>The loop of \<open>waypointOnRoute\<close> over the candidates.\<close>

fun waypointOnRoute_loop :: "size_t list \<Rightarrow> CarlaWaypoint list \<Rightarrow> CarlaWaypoint option" where
  "waypointOnRoute_loop rs [] = None"
| "waypointOnRoute_loop rs (candidate # candidates) =
     (let iter = std_find rs (GetRoadId candidate) in
      if iter \<noteq> length rs then Some candidate
      else waypointOnRoute_loop rs candidates)"

definition waypointOnRoute ::
  "LoopRouter \<Rightarrow> topology \<Rightarrow> CarlaWaypoint \<Rightarrow> trace
     \<Rightarrow> (exception + CarlaWaypoint option) \<times> trace" where
  "waypointOnRoute r topo waypoint tr =
     (let (candidates, tr1) = GetNext topo waypoint (Finite (1 / 100)) tr in
      (Inr (waypointOnRoute_loop (road_sequence r) candidates), tr1))"

definition nextRoad :: "LoopRouter \<Rightarrow> size_t \<Rightarrow> exception + size_t option" where
  "nextRoad r road =
     (let iter = std_find (road_sequence r) road in
      if iter = length (road_sequence r)
      then Inl (out_of_range ''Given road is not on route'')
      else if iter \<noteq> length (road_sequence r) - 1
      then Inr (Some (road_sequence r ! (iter + 1)))
      else Inr (Some (hd (road_sequence r))))"

definition prevRoad :: "LoopRouter \<Rightarrow> size_t \<Rightarrow> exception + size_t option" where
  "prevRoad r road =
     (let iter = std_find (road_sequence r) road in
      if iter = length (road_sequence r)
      then Inl (out_of_range ''Given road is not on route'')
      else if iter \<noteq> 0
      then Inr (Some (road_sequence r ! (iter - 1)))
      else Inr (Some (last (road_sequence r))))"

text \<open>The overloads \<open>nextRoad(waypoint)\<close> and \<open>prevRoad(waypoint)\<close>.\<close>

definition nextRoad_waypoint :: "LoopRouter \<Rightarrow> CarlaWaypoint \<Rightarrow> exception + size_t option" where
  "nextRoad_waypoint r waypoint = nextRoad r (GetRoadId waypoint)"

definition prevRoad_waypoint :: "LoopRouter \<Rightarrow> CarlaWaypoint \<Rightarrow> exception + size_t option" where
  "prevRoad_waypoint r waypoint = prevRoad r (GetRoadId waypoint)"

text \<open>
  The loop of \<open>frontWaypoint\<close>: a candidate on \<open>this_road\<close> is returned at once; the last
  candidate seen on \<open>next_road\<close> is remembered in \<open>next_waypoint\<close>.
\<close>

fun frontWaypoint_loop ::
  "size_t \<Rightarrow> size_t \<Rightarrow> CarlaWaypoint list \<Rightarrow> CarlaWaypoint option \<Rightarrow> CarlaWaypoint option" where
  "frontWaypoint_loop this_road next_road [] next_waypoint = next_waypoint"
| "frontWaypoint_loop this_road next_road (candidate # candidates) next_waypoint =
     (if GetRoadId candidate = this_road then Some candidate
      else frontWaypoint_loop this_road next_road candidates
             (if GetRoadId candidate = next_road then Some candidate else next_waypoint))"

definition frontWaypoint ::
  "LoopRouter \<Rightarrow> topology \<Rightarrow> CarlaWaypoint \<Rightarrow> double \<Rightarrow> trace
     \<Rightarrow> (exception + CarlaWaypoint option) \<times> trace" where
  "frontWaypoint r topo waypoint distance tr =
     (if le_zero distance
      then (Inl (runtime_error ''Invaid distance when looking for front waypoint.''), tr)
      else
        let (candidates, tr1) = GetNext topo waypoint distance tr;
            this_road = GetRoadId waypoint
        in case nextRoad r this_road of
             Inl e \<Rightarrow> (Inl e, tr1)
           | Inr is_next_road \<Rightarrow>
               let next_road = (case is_next_road of Some v \<Rightarrow> v | None \<Rightarrow> - 1)
               in (Inr (frontWaypoint_loop this_road next_road candidates None), tr1))"

section \<open>Lattice: \<open>planner::Lattice\<close> (waypoint\_lattice.h)\<close>

subsection \<open>Data\<close>

text \<open>
  A node of the lattice: \<open>WaypointNode\<close> with the four neighbour references of its base
  class \<open>LatticeNode\<close>. A reference to a node is the identifier of the node's waypoint,
  the key of \<open>waypoint_to_node_table\<close>; the table is the store through which every
  reference is read, so that a node reached by two references is one node. Distances are
  real numbers: the rounding of \<open>double\<close> arithmetic is not modelled.
\<close>

record WaypointNode =
  waypoint :: CarlaWaypoint
  distance :: real
  front_link :: "size_t option"
  back_link :: "size_t option"
  left_link :: "size_t option"
  right_link :: "size_t option"

text \<open>
  The two \<open>std::unordered_map\<close> tables are association lists with one entry per key
  (\<open>AList.update\<close>, \<open>AList.delete\<close>, \<open>map_of\<close>).
\<close>

record Lattice =
  router :: LoopRouter
  lattice_entry :: size_t
  lattice_exit :: size_t
  waypoint_to_node_table :: "(size_t \<times> WaypointNode) list"
  roadlane_to_waypoints_table :: "(size_t \<times> size_t list) list"
  longitudinal_resolution :: real

text \<open>
  \<open>utils::hashCombine(seed, road, lane)\<close> is defined in utils.h, which is not part of the
  sources; the functions that call it take it as a parameter and pass the seed \<open>0\<close>.
\<close>

type_synonym hash = "size_t \<Rightarrow> size_t \<Rightarrow> int \<Rightarrow> size_t"

text \<open>Reading a reference: the node stored under an identifier.\<close>

definition node :: "Lattice \<Rightarrow> size_t \<Rightarrow> WaypointNode option" where
  "node L i = map_of (waypoint_to_node_table L) i"

text \<open>
  \<open>lattice_entry\<close> and \<open>lattice_exit\<close> are shared pointers and always point to a
  node; \<open>lattice_ok\<close> says so for the identifiers that stand for them, and that the table
  has one entry per key.
\<close>

definition lattice_ok :: "Lattice \<Rightarrow> bool" where
  "lattice_ok L \<longleftrightarrow>
     distinct (map fst (waypoint_to_node_table L)) \<and>
     lattice_entry L \<in> fst ` set (waypoint_to_node_table L) \<and>
     lattice_exit L \<in> fst ` set (waypoint_to_node_table L)"

definition latticeEntry :: "Lattice \<Rightarrow> WaypointNode" where
  "latticeEntry L = the (node L (lattice_entry L))"

definition latticeExit :: "Lattice \<Rightarrow> WaypointNode" where
  "latticeExit L = the (node L (lattice_exit L))"

subsection \<open>Operations defined in waypoint\_lattice.h\<close>

definition augmentWaypointToNodeTable :: "Lattice \<Rightarrow> size_t \<Rightarrow> WaypointNode \<Rightarrow> Lattice" where
  "augmentWaypointToNodeTable L waypoint_id nd =
     L\<lparr> waypoint_to_node_table := AList.update waypoint_id nd (waypoint_to_node_table L) \<rparr>"

definition reduceWaypointToNodeTable :: "Lattice \<Rightarrow> size_t \<Rightarrow> Lattice" where
  "reduceWaypointToNodeTable L waypoint_id =
     L\<lparr> waypoint_to_node_table := AList.delete waypoint_id (waypoint_to_node_table L) \<rparr>"

definition augmentRoadlaneToWaypointsTable :: "hash \<Rightarrow> Lattice \<Rightarrow> CarlaWaypoint \<Rightarrow> Lattice" where
  "augmentRoadlaneToWaypointsTable hashCombine L w =
     (let roadlane_id = hashCombine 0 (GetRoadId w) (GetLaneId w);
          t = roadlane_to_waypoints_table L;
          t1 = (if map_of t roadlane_id = None then AList.update roadlane_id [] t else t)
      in L\<lparr> roadlane_to_waypoints_table :=
             AList.map_entry roadlane_id (\<lambda>waypoints. waypoints @ [GetId w]) t1 \<rparr>)"

definition reduceRoadlaneToWaypointsTable :: "hash \<Rightarrow> Lattice \<Rightarrow> CarlaWaypoint \<Rightarrow> Lattice" where
  "reduceRoadlaneToWaypointsTable hashCombine L w =
     (let roadlane_id = hashCombine 0 (GetRoadId w) (GetLaneId w);
          t = roadlane_to_waypoints_table L
      in if map_of t roadlane_id \<noteq> None
         then L\<lparr> roadlane_to_waypoints_table :=
                  AList.map_entry roadlane_id (filter (\<lambda>id. id \<noteq> GetId w)) t \<rparr>
         else L)"

text \<open>
  \<open>shift\<close>. The header declares \<open>extend\<close> and \<open>shorten\<close> and defines them in
  waypoint\_lattice\_inst.h, which is not part of the sources: \<open>shift\<close> takes the two as
  parameters. An exception thrown by \<open>extend\<close> leaves \<open>shift\<close> before \<open>shorten\<close> runs.
\<close>

definition shift ::
  "(Lattice \<Rightarrow> real \<Rightarrow> exception + Lattice) \<Rightarrow> (Lattice \<Rightarrow> real \<Rightarrow> exception + Lattice)
     \<Rightarrow> Lattice \<Rightarrow> real \<Rightarrow> exception + Lattice" where
  "shift extend' shorten' L movement =
     (let range' = distance (latticeExit L) - distance (latticeEntry L) in
      case extend' L (range' + movement) of
        Inl e \<Rightarrow> Inl e
      | Inr L1 \<Rightarrow> shorten' L1 range')"

subsection \<open>Operations defined outside the sources, after the specification\<close>

text \<open>The range of the lattice: the distance of the exit minus the distance of the entry.\<close>

definition lattice_range :: "Lattice \<Rightarrow> real" where
  "lattice_range L = distance (latticeExit L) - distance (latticeEntry L)"

text \<open>
  Modelled from the spec: \<open>shorten\<close>, defined in waypoint\_lattice\_inst.h, which is not
  part of the sources. Section 4.2: ``no-op if \<open>newRange \<ge> current range\<close>. Otherwise
  remove every node whose \<open>lattice_distance\<close> exceeds \<open>entry.lattice_distance + newRange\<close>,
  in decreasing-distance order (so a node is never removed before its \<open>front\<close> neighbor):
  unlink it from its back/left/right neighbors (setting their reverse reference to absent),
  remove it from both indices, and update \<open>exit\<close> to the new farthest remaining node.''
  The specification names no failure of \<open>shorten\<close>. Among several farthest nodes the
  first of the table is taken.
\<close>

definition unlink ::
  "size_t option \<Rightarrow> (WaypointNode \<Rightarrow> WaypointNode) \<Rightarrow> (size_t \<times> WaypointNode) list
     \<Rightarrow> (size_t \<times> WaypointNode) list" where
  "unlink neighbour clear t =
     (case neighbour of None \<Rightarrow> t | Some j \<Rightarrow> AList.map_entry j clear t)"

definition removeNode :: "hash \<Rightarrow> size_t \<Rightarrow> Lattice \<Rightarrow> Lattice" where
  "removeNode hashCombine i L =
     (case node L i of
        None \<Rightarrow> L
      | Some nd \<Rightarrow>
          let t1 = unlink (back_link nd) (\<lambda>b. b\<lparr> front_link := None \<rparr>) (waypoint_to_node_table L);
              t2 = unlink (left_link nd) (\<lambda>l. l\<lparr> right_link := None \<rparr>) t1;
              t3 = unlink (right_link nd) (\<lambda>r. r\<lparr> left_link := None \<rparr>) t2
          in reduceRoadlaneToWaypointsTable hashCombine
               (reduceWaypointToNodeTable (L\<lparr> waypoint_to_node_table := t3 \<rparr>) i)
               (waypoint nd))"

fun farthest :: "(size_t \<times> WaypointNode) list \<Rightarrow> (size_t \<times> WaypointNode) option" where
  "farthest [] = None"
| "farthest ((i, nd) # rest) =
     (case farthest rest of
        None \<Rightarrow> Some (i, nd)
      | Some (j, md) \<Rightarrow> if distance nd < distance md then Some (j, md) else Some (i, nd))"

definition shorten :: "hash \<Rightarrow> Lattice \<Rightarrow> real \<Rightarrow> exception + Lattice" where
  "shorten hashCombine L range' =
     (if lattice_range L \<le> range' then Inr L
      else
        let bound = distance (latticeEntry L) + range';
            beyond = filter (\<lambda>(i, nd). bound < distance nd) (waypoint_to_node_table L);
            ordered = map fst (rev (sort_key (\<lambda>(i, nd). distance nd) beyond));
            L1 = fold (removeNode hashCombine) ordered L
        in Inr (case farthest (waypoint_to_node_table L1) of
                  None \<Rightarrow> L1
                | Some (x, xd) \<Rightarrow> L1\<lparr> lattice_exit := x \<rparr>))"

text \<open>
  Modelled from the spec: \<open>extend\<close>, defined in waypoint\_lattice\_inst.h, which is not
  part of the sources. What it builds depends on the road database; \<open>extend_post\<close> relates
  the lattice before a call that returns to the lattice after it, as far as the
  specification fixes it. Section 4.2: ``no-op if \<open>newRange \<le> current range\<close>''; section 3:
  ``nodes are created during extend (new nodes appended at the growing end)'', so every
  node of before is a node of after with its waypoint and its distance, and the entry is
  the entry of before; section 4.2: ``updating \<open>exit\<close> to the new farthest node''.
\<close>

definition extend_post :: "Lattice \<Rightarrow> real \<Rightarrow> Lattice \<Rightarrow> bool" where
  "extend_post L range' L1 \<longleftrightarrow>
     (if range' \<le> lattice_range L then L1 = L
      else
        lattice_ok L1 \<and>
        lattice_entry L1 = lattice_entry L \<and>
        longitudinal_resolution L1 = longitudinal_resolution L \<and>
        (\<forall>(i, nd) \<in> set (waypoint_to_node_table L).
           case node L1 i of
             None \<Rightarrow> False
           | Some nd1 \<Rightarrow> waypoint nd1 = waypoint nd \<and> distance nd1 = distance nd) \<and>
        (\<forall>(i, nd1) \<in> set (waypoint_to_node_table L1).
           distance nd1 \<le> distance (latticeExit L1)))"

text \<open>
  Modelled from the spec: \<open>closestNode\<close>, defined in waypoint\_lattice\_inst.h, which is
  not part of the sources. Section 4.2: ``look up \<open>queryPoint\<close>'s (road,lane) bucket in
  Index 2; among its point identifiers, compute positional distance to \<open>queryPoint\<close> for
  each node and return the minimum if it is \<open>\<le> tolerance\<close>, else absent.'' The positional
  distance between two waypoints is a parameter.
\<close>

type_synonym metric = "CarlaWaypoint \<Rightarrow> CarlaWaypoint \<Rightarrow> real"

definition closer :: "(size_t \<times> real) option \<Rightarrow> size_t \<times> real \<Rightarrow> (size_t \<times> real) option" where
  "closer best c =
     (case best of None \<Rightarrow> Some c | Some b \<Rightarrow> if snd c < snd b then Some c else Some b)"

definition closestNode ::
  "hash \<Rightarrow> metric \<Rightarrow> Lattice \<Rightarrow> CarlaWaypoint \<Rightarrow> real \<Rightarrow> size_t option" where
  "closestNode hashCombine pdist L q tolerance =
     (case map_of (roadlane_to_waypoints_table L)
             (hashCombine 0 (GetRoadId q) (GetLaneId q)) of
        None \<Rightarrow> None
      | Some ids \<Rightarrow>
          (case fold (\<lambda>i best. case node L i of
                                 None \<Rightarrow> best
                               | Some nd \<Rightarrow> closer best (i, pdist (waypoint nd) q))
                     ids None of
             None \<Rightarrow> None
           | Some (i, d) \<Rightarrow> if d \<le> tolerance then Some i else None))"

text \<open>
  Modelled from the spec: the relative queries, defined in waypoint\_lattice\_inst.h, which
  is not part of the sources. Section 4.2: ``all queries first resolve \<open>query\<close> to its
  nearest node via \<open>closestNode\<close> (fixed tolerance), then traverse the requested relation:
  \<open>front(q, r)\<close>: walk \<open>front\<close> links accumulating \<open>resolution\<close> per hop until accumulated
  distance \<open>\<ge> r\<close> or a link is absent (return absent). \<open>leftFront(q, r)\<close>: take \<open>left\<close>
  once (absent: absent), then walk \<open>front\<close> by r. \<open>frontLeft(q, r)\<close>: walk \<open>front\<close> by r
  first, then take \<open>left\<close> once.''

  The walk need not end (front links in a circle, a resolution that is not positive): its
  result is \<open>None\<close> when it does not return, \<open>Some None\<close> when it returns absent and
  \<open>Some (Some n)\<close> when it returns the node \<open>n\<close>.
\<close>

partial_function (option) walk ::
  "(WaypointNode \<Rightarrow> size_t option) \<Rightarrow> Lattice \<Rightarrow> real \<Rightarrow> size_t \<Rightarrow> real \<Rightarrow> size_t option option" where
  "walk link L range' n acc =
     (if range' \<le> acc then Some (Some n)
      else case node L n of
             None \<Rightarrow> Some None
           | Some nd \<Rightarrow>
               (case link nd of
                  None \<Rightarrow> Some None
                | Some m \<Rightarrow> walk link L range' m (acc + longitudinal_resolution L)))"

definition front ::
  "hash \<Rightarrow> metric \<Rightarrow> real \<Rightarrow> Lattice \<Rightarrow> CarlaWaypoint \<Rightarrow> real \<Rightarrow> size_t option option" where
  "front hashCombine pdist tolerance L query range' =
     (case closestNode hashCombine pdist L query tolerance of
        None \<Rightarrow> Some None
      | Some n \<Rightarrow> walk front_link L range' n 0)"

definition leftFront ::
  "hash \<Rightarrow> metric \<Rightarrow> real \<Rightarrow> Lattice \<Rightarrow> CarlaWaypoint \<Rightarrow> real \<Rightarrow> size_t option option" where
  "leftFront hashCombine pdist tolerance L query range' =
     (case closestNode hashCombine pdist L query tolerance of
        None \<Rightarrow> Some None
      | Some n \<Rightarrow>
          (case node L n of
             None \<Rightarrow> Some None
           | Some nd \<Rightarrow>
               (case left_link nd of
                  None \<Rightarrow> Some None
                | Some l \<Rightarrow> walk front_link L range' l 0)))"

definition frontLeft ::
  "hash \<Rightarrow> metric \<Rightarrow> real \<Rightarrow> Lattice \<Rightarrow> CarlaWaypoint \<Rightarrow> real \<Rightarrow> size_t option option" where
  "frontLeft hashCombine pdist tolerance L query range' =
     (case closestNode hashCombine pdist L query tolerance of
        None \<Rightarrow> Some None
      | Some n \<Rightarrow>
          (case walk front_link L range' n 0 of
             None \<Rightarrow> None
           | Some None \<Rightarrow> Some None
           | Some (Some m) \<Rightarrow>
               (case node L m of
                  None \<Rightarrow> Some None
                | Some md \<Rightarrow> Some (left_link md))))"

text \<open>
  Modelled from the spec: the invariant of a lattice node, section 3: ``if \<open>A.front == B\<close>
  then \<open>B.back == A\<close> (symmetry); if \<open>A.left == B\<close> then \<open>B.right == A\<close>'', read in both
  directions; every link leads to a node of the lattice.
\<close>

definition links_symmetric :: "Lattice \<Rightarrow> bool" where
  "links_symmetric L \<longleftrightarrow>
     (\<forall>(i, nd) \<in> set (waypoint_to_node_table L).
        (case front_link nd of
           None \<Rightarrow> True
         | Some f \<Rightarrow> map_option back_link (node L f) = Some (Some i)) \<and>
        (case back_link nd of
           None \<Rightarrow> True
         | Some b \<Rightarrow> map_option front_link (node L b) = Some (Some i)) \<and>
        (case left_link nd of
           None \<Rightarrow> True
         | Some l \<Rightarrow> map_option right_link (node L l) = Some (Some i)) \<and>
        (case right_link nd of
           None \<Rightarrow> True
         | Some r \<Rightarrow> map_option left_link (node L r) = Some (Some i)))"

text \<open>
  Modelled from the spec: the distances of neighbours. Section 3: \<open>lattice_distance\<close>
  ``strictly increases by \<open>resolution\<close> per step'' along the front links; section 4.2:
  ``lateral siblings share \<open>lattice_distance\<close>''.
\<close>

definition distances_regular :: "Lattice \<Rightarrow> bool" where
  "distances_regular L \<longleftrightarrow>
     (\<forall>(i, nd) \<in> set (waypoint_to_node_table L).
        (case front_link nd of
           None \<Rightarrow> True
         | Some f \<Rightarrow>
             map_option distance (node L f) = Some (distance nd + longitudinal_resolution L)) \<and>
        (case left_link nd of
           None \<Rightarrow> True
         | Some l \<Rightarrow> map_option distance (node L l) = Some (distance nd)))"

text \<open>
  The links commute: where a node has a front neighbour \<open>f\<close> and a left neighbour \<open>l\<close>, a
  front neighbour of \<open>l\<close> is the left neighbour of \<open>f\<close>. The specification does not state
  this of a lattice, and the two invariants above do not imply it.
\<close>

definition links_commute :: "Lattice \<Rightarrow> bool" where
  "links_commute L \<longleftrightarrow>
     (\<forall>(i, nd) \<in> set (waypoint_to_node_table L).
        case front_link nd of
          None \<Rightarrow> True
        | Some f \<Rightarrow>
            (case left_link nd of
               None \<Rightarrow> True
             | Some l \<Rightarrow>
                 (case node L f of
                    None \<Rightarrow> True
                  | Some fd \<Rightarrow>
                      (case node L l of
                         None \<Rightarrow> True
                       | Some ld \<Rightarrow>
                           (case front_link ld of
                              None \<Rightarrow> True
                            | Some x \<Rightarrow> left_link fd = Some x)))))"

subsection \<open>Example road data\<close>

text \<open>
  Concrete waypoints and a concrete topology, on which the theorems below are
  instantiated: \<open>wp i road\<close> is the waypoint \<open>i\<close> on road \<open>road\<close>, and \<open>fork cs\<close>
  is a topology in which every query reaches the waypoints \<open>cs\<close>.
\<close>

definition wp :: "size_t \<Rightarrow> size_t \<Rightarrow> CarlaWaypoint" where
  "wp i road = \<lparr> GetId = i, GetRoadId = road, GetLaneId = 1 \<rparr>"

definition fork :: "CarlaWaypoint list \<Rightarrow> topology" where
  "fork cs = (\<lambda>w d. cs)"

text \<open>
  A lattice of two lanes and three steps on road 47, with a resolution of one meter: the
  nodes 10, 11, 12 on lane 1 and, to their left, 20, 21, 22 on lane 2.
\<close>

definition lane_wp :: "size_t \<Rightarrow> size_t \<Rightarrow> int \<Rightarrow> CarlaWaypoint" where
  "lane_wp i road lane = \<lparr> GetId = i, GetRoadId = road, GetLaneId = lane \<rparr>"

definition ex_hash :: hash where
  "ex_hash seed road lane = seed + road * 16 + of_int lane"

definition ex_metric :: metric where
  "ex_metric a b = (if GetId a = GetId b then 0 else 5)"

definition ex_node ::
  "size_t \<Rightarrow> int \<Rightarrow> real \<Rightarrow> size_t option \<Rightarrow> size_t option \<Rightarrow> size_t option \<Rightarrow> size_t option
     \<Rightarrow> size_t \<times> WaypointNode" where
  "ex_node i lane d f b l r =
     (i, \<lparr> waypoint = lane_wp i 47 lane, distance = d,
           front_link = f, back_link = b, left_link = l, right_link = r \<rparr>)"

definition two_lanes :: Lattice where
  "two_lanes = \<lparr> router = LoopRouter, lattice_entry = 10, lattice_exit = 12,
     waypoint_to_node_table =
       [ex_node 10 1 0 (Some 11) None (Some 20) None,
        ex_node 11 1 1 (Some 12) (Some 10) (Some 21) None,
        ex_node 12 1 2 None (Some 11) (Some 22) None,
        ex_node 20 2 0 (Some 21) None None (Some 10),
        ex_node 21 2 1 (Some 22) (Some 20) None (Some 11),
        ex_node 22 2 2 None (Some 21) None (Some 12)],
     roadlane_to_waypoints_table = [(753, [10, 11, 12]), (754, [20, 21, 22])],
     longitudinal_resolution = 1 \<rparr>"

text \<open>
  The same road where the left lane begins one step later: there is no node 20.
\<close>

definition late_lane :: Lattice where
  "late_lane = \<lparr> router = LoopRouter, lattice_entry = 10, lattice_exit = 12,
     waypoint_to_node_table =
       [ex_node 10 1 0 (Some 11) None None None,
        ex_node 11 1 1 (Some 12) (Some 10) (Some 21) None,
        ex_node 12 1 2 None (Some 11) (Some 22) None,
        ex_node 21 2 1 (Some 22) None None (Some 11),
        ex_node 22 2 2 None (Some 21) None (Some 12)],
     roadlane_to_waypoints_table = [(753, [10, 11, 12]), (754, [21, 22])],
     longitudinal_resolution = 1 \<rparr>"

text \<open>
  Two steps of the same road where the database gives the left neighbour of waypoint 11 as
  waypoint 31, while the waypoint in front of 20 is waypoint 21: the node in front of the
  left neighbour of 10 and the left neighbour of the node in front of 10 are two nodes.
\<close>

definition split_lane :: Lattice where
  "split_lane = \<lparr> router = LoopRouter, lattice_entry = 10, lattice_exit = 11,
     waypoint_to_node_table =
       [ex_node 10 1 0 (Some 11) None (Some 20) None,
        ex_node 11 1 1 None (Some 10) (Some 31) None,
        ex_node 20 2 0 (Some 21) None None (Some 10),
        ex_node 21 2 1 None (Some 20) None None,
        ex_node 31 2 1 None None None (Some 11)],
     roadlane_to_waypoints_table = [(753, [10, 11]), (754, [20, 21, 31])],
     longitudinal_resolution = 1 \<rparr>"

text \<open>
  An \<open>extend\<close> for the example: beyond the current range it appends one node to each of
  the two lanes, 13 in front of 12 and 23 in front of 22, and makes 13 the exit.
  \<open>three_steps\<close> is the lattice this gives from \<open>two_lanes\<close>.
\<close>

definition add_node :: "hash \<Rightarrow> size_t \<times> WaypointNode \<Rightarrow> Lattice \<Rightarrow> Lattice" where
  "add_node hashCombine e L =
     augmentRoadlaneToWaypointsTable hashCombine
       (augmentWaypointToNodeTable L (fst e) (snd e)) (waypoint (snd e))"

definition set_front :: "size_t \<Rightarrow> size_t \<Rightarrow> Lattice \<Rightarrow> Lattice" where
  "set_front i f L =
     L\<lparr> waypoint_to_node_table :=
          AList.map_entry i (\<lambda>nd. nd\<lparr> front_link := Some f \<rparr>) (waypoint_to_node_table L) \<rparr>"

definition ex_extend :: "Lattice \<Rightarrow> real \<Rightarrow> exception + Lattice" where
  "ex_extend L range' =
     (if range' \<le> lattice_range L then Inr L
      else Inr ((set_front 22 23 (set_front 12 13
                  (add_node ex_hash (ex_node 23 2 3 None (Some 22) None (Some 13))
                    (add_node ex_hash (ex_node 13 1 3 None (Some 12) (Some 23) None) L))))
                \<lparr> lattice_exit := 13 \<rparr>))"

definition three_steps :: Lattice where
  "three_steps = \<lparr> router = LoopRouter, lattice_entry = 10, lattice_exit = 13,
     waypoint_to_node_table =
       [ex_node 10 1 0 (Some 11) None (Some 20) None,
        ex_node 11 1 1 (Some 12) (Some 10) (Some 21) None,
        ex_node 12 1 2 (Some 13) (Some 11) (Some 22) None,
        ex_node 20 2 0 (Some 21) None None (Some 10),
        ex_node 21 2 1 (Some 22) (Some 20) None (Some 11),
        ex_node 22 2 2 (Some 23) (Some 21) None (Some 12),
        ex_node 13 1 3 None (Some 12) (Some 23) None,
        ex_node 23 2 3 None (Some 22) None (Some 13)],
     roadlane_to_waypoints_table = [(753, [10, 11, 12, 13]), (754, [20, 21, 22, 23])],
     longitudinal_resolution = 1 \<rparr>"

subsection \<open>Auxiliary notions for the proofs\<close>

text \<open>The identifiers under which the lattice stores a node.\<close>

definition keys :: "Lattice \<Rightarrow> size_t set" where
  "keys L = fst ` set (waypoint_to_node_table L)"


section \<open>Properties of the route policy\<close>

lemma std_find_le: "std_find xs v \<le> length xs"
  by (induction xs) auto

lemma std_find_end_iff: "std_find xs v = length xs \<longleftrightarrow> v \<notin> set xs"
proof (induction xs)
  case Nil
  show ?case by simp
next
  case (Cons x xs)
  have "std_find xs v \<le> length xs" by (rule std_find_le)
  with Cons show ?case by auto
qed

lemma std_find_nth: "v \<in> set xs \<Longrightarrow> xs ! std_find xs v = v"
  by (induction xs) auto

lemma std_find_lt: "v \<in> set xs \<Longrightarrow> std_find xs v < length xs"
  using std_find_le [of xs v] std_find_end_iff [of xs v] by simp

lemma std_find_distinct_nth: "distinct xs \<Longrightarrow> i < length xs \<Longrightarrow> std_find xs (xs ! i) = i"
proof (induction xs arbitrary: i)
  case Nil
  then show ?case by simp
next
  case (Cons x xs)
  show ?case
  proof (cases i)
    case 0
    then show ?thesis by simp
  next
    case (Suc j)
    with Cons.prems have "j < length xs" and "xs ! j \<in> set xs" and "x \<notin> set xs"
      by auto
    then have "x \<noteq> xs ! j" by auto
    with Suc Cons show ?thesis by simp
  qed
qed

lemma waypointOnRoute_loop_find:
  "waypointOnRoute_loop rs cs = find (\<lambda>c. GetRoadId c \<in> set rs) cs"
  by (induction cs) (simp_all add: std_find_end_iff)

lemma frontWaypoint_loop_this:
  "\<exists>c \<in> set cs. GetRoadId c = this_road \<Longrightarrow>
   frontWaypoint_loop this_road next_road cs nw = find (\<lambda>c. GetRoadId c = this_road) cs"
  by (induction cs arbitrary: nw) auto

lemma find_snoc:
  "find P (xs @ [x]) = (case find P xs of Some y \<Rightarrow> Some y | None \<Rightarrow> if P x then Some x else None)"
  by (induction xs) auto

lemma frontWaypoint_loop_next:
  "\<forall>c \<in> set cs. GetRoadId c \<noteq> this_road \<Longrightarrow>
   frontWaypoint_loop this_road next_road cs nw =
     (case find (\<lambda>c. GetRoadId c = next_road) (rev cs) of Some c \<Rightarrow> Some c | None \<Rightarrow> nw)"
proof (induction cs arbitrary: nw)
  case Nil
  show ?case by simp
next
  case (Cons c cs)
  then show ?case
    by (simp add: find_snoc split: option.splits)
qed

lemma find_Some_D: "find P xs = Some x \<Longrightarrow> x \<in> set xs \<and> P x"
  by (induction xs) (auto split: if_splits)

lemma find_None_D: "find P xs = None \<Longrightarrow> x \<in> set xs \<Longrightarrow> \<not> P x"
  by (induction xs) (auto split: if_splits)

lemma find_ex_Some: "\<exists>x \<in> set xs. P x \<Longrightarrow> \<exists>y. find P xs = Some y"
  by (induction xs) auto

lemma gt_zero_not_le_zero: "gt_zero d \<Longrightarrow> \<not> le_zero d"
  by (cases d) auto

lemma nextRoad_on_route:
  assumes "s \<in> set (road_sequence r)"
  shows "\<exists>n. nextRoad r s = Inr (Some n)"
  using assms by (simp add: nextRoad_def Let_def std_find_end_iff)

lemma nextRoad_not_on_route:
  assumes "s \<notin> set (road_sequence r)"
  shows "nextRoad r s = Inl (out_of_range ''Given road is not on route'')"
  using assms by (simp add: nextRoad_def Let_def std_find_end_iff)

lemma prevRoad_not_on_route:
  assumes "s \<notin> set (road_sequence r)"
  shows "prevRoad r s = Inl (out_of_range ''Given road is not on route'')"
  using assms by (simp add: prevRoad_def Let_def std_find_end_iff)

text \<open>
  \<open>nextRoad\<close> undoes \<open>prevRoad\<close> on every sequence without duplicates, also across the
  wrap-around.
\<close>

lemma nextRoad_prevRoad_distinct:
  assumes d: "distinct (road_sequence r)" and s: "s \<in> set (road_sequence r)"
  shows "\<exists>p. prevRoad r s = Inr (Some p) \<and> nextRoad r p = Inr (Some s)"
proof -
  define xs where "xs = road_sequence r"
  define i where "i = std_find xs s"
  have i_lt: "i < length xs" and xs_i: "xs ! i = s"
    using s by (simp_all add: i_def xs_def std_find_lt std_find_nth)
  have ne: "xs \<noteq> []" using i_lt by auto
  show ?thesis
  proof (cases "i = 0")
    case True
    have p: "prevRoad r s = Inr (Some (last xs))"
      using True i_lt by (simp add: prevRoad_def Let_def xs_def [symmetric] i_def [symmetric])
    have "last xs = xs ! (length xs - 1)" using ne by (simp add: last_conv_nth)
    then have "std_find xs (last xs) = length xs - 1"
      using d ne by (simp add: xs_def [symmetric] std_find_distinct_nth)
    moreover have "length xs - 1 \<noteq> length xs" using i_lt by arith
    ultimately have "nextRoad r (last xs) = Inr (Some (hd xs))"
      by (simp add: nextRoad_def Let_def xs_def [symmetric])
    moreover have "hd xs = s" using True xs_i ne by (simp add: hd_conv_nth)
    ultimately show ?thesis using p by simp
  next
    case False
    have p: "prevRoad r s = Inr (Some (xs ! (i - 1)))"
      using False i_lt by (simp add: prevRoad_def Let_def xs_def [symmetric] i_def [symmetric])
    have "std_find xs (xs ! (i - 1)) = i - 1"
      using d i_lt by (simp add: xs_def [symmetric] std_find_distinct_nth)
    moreover have "i - 1 \<noteq> length xs" "i - 1 \<noteq> length xs - 1" "i - 1 + 1 = i"
      using False i_lt by arith+
    ultimately have "nextRoad r (xs ! (i - 1)) = Inr (Some (xs ! i))"
      by (simp add: nextRoad_def Let_def xs_def [symmetric] del: One_nat_def)
    then show ?thesis using p xs_i by simp
  qed
qed

lemma prevRoad_nextRoad_distinct:
  assumes d: "distinct (road_sequence r)" and s: "s \<in> set (road_sequence r)"
  shows "\<exists>n. nextRoad r s = Inr (Some n) \<and> prevRoad r n = Inr (Some s)"
proof -
  define xs where "xs = road_sequence r"
  define i where "i = std_find xs s"
  have i_lt: "i < length xs" and xs_i: "xs ! i = s"
    using s by (simp_all add: i_def xs_def std_find_lt std_find_nth)
  have ne: "xs \<noteq> []" using i_lt by auto
  show ?thesis
  proof (cases "i = length xs - 1")
    case True
    have n: "nextRoad r s = Inr (Some (hd xs))"
      using True i_lt by (simp add: nextRoad_def Let_def xs_def [symmetric] i_def [symmetric])
    have "hd xs = xs ! 0" using ne by (simp add: hd_conv_nth)
    then have "std_find xs (hd xs) = 0"
      using d ne by (simp add: xs_def [symmetric] std_find_distinct_nth)
    moreover have "0 \<noteq> length xs" using i_lt by arith
    ultimately have "prevRoad r (hd xs) = Inr (Some (last xs))"
      by (simp add: prevRoad_def Let_def xs_def [symmetric])
    moreover have "last xs = s" using True xs_i ne by (simp add: last_conv_nth)
    ultimately show ?thesis using n by simp
  next
    case False
    then have i1: "i + 1 < length xs" using i_lt by arith
    have n: "nextRoad r s = Inr (Some (xs ! (i + 1)))"
      using False i_lt by (simp add: nextRoad_def Let_def xs_def [symmetric] i_def [symmetric])
    have "std_find xs (xs ! (i + 1)) = i + 1"
      using d i1 std_find_distinct_nth [of xs "i + 1"] by (simp add: xs_def [symmetric])
    moreover have "i + 1 \<noteq> length xs" "i + 1 \<noteq> 0" "i + 1 - 1 = i"
      using i1 by arith+
    ultimately have "prevRoad r (xs ! (i + 1)) = Inr (Some (xs ! i))"
      by (simp add: prevRoad_def Let_def xs_def [symmetric] del: One_nat_def)
    then show ?thesis using n xs_i by simp
  qed
qed

lemma LoopRouter_distinct: "distinct (road_sequence LoopRouter)"
  by (simp add: LoopRouter_def)

subsection \<open>Claims on the route policy\<close>

text \<open>
  C1. For a waypoint whose road is on the router's cycle and a distance greater than zero,
  \<open>frontWaypoint\<close> queries the topology once and returns without throwing. If some
  reachable point is on the waypoint's own road, the result is such a point (the first one
  listed); otherwise, if some reachable point is on the next road of the cycle, the result
  is such a point (the last one listed); otherwise the result is absent.
\<close>

theorem frontWaypoint_on_route:
  assumes on_route: "GetRoadId p \<in> set (road_sequence r)"
      and pos: "gt_zero d"
  shows "\<exists>next_road res.
           nextRoad r (GetRoadId p) = Inr (Some next_road) \<and>
           frontWaypoint r topo p d tr = (Inr res, tr @ [(p, d)]) \<and>
           (if \<exists>c \<in> set (topo p d). GetRoadId c = GetRoadId p
            then res = find (\<lambda>c. GetRoadId c = GetRoadId p) (topo p d) \<and>
                 (\<exists>c \<in> set (topo p d). res = Some c \<and> GetRoadId c = GetRoadId p)
            else if \<exists>c \<in> set (topo p d). GetRoadId c = next_road
            then res = find (\<lambda>c. GetRoadId c = next_road) (rev (topo p d)) \<and>
                 (\<exists>c \<in> set (topo p d). res = Some c \<and> GetRoadId c = next_road)
            else res = None)"
proof -
  obtain n where n: "nextRoad r (GetRoadId p) = Inr (Some n)"
    using nextRoad_on_route [OF on_route] by blast
  define cs where "cs = topo p d"
  define res where "res = frontWaypoint_loop (GetRoadId p) n cs None"
  have fw: "frontWaypoint r topo p d tr = (Inr res, tr @ [(p, d)])"
    using gt_zero_not_le_zero [OF pos] n
    by (simp add: frontWaypoint_def GetNext_def res_def cs_def)
  have sel: "if \<exists>c \<in> set cs. GetRoadId c = GetRoadId p
            then res = find (\<lambda>c. GetRoadId c = GetRoadId p) cs \<and>
                 (\<exists>c \<in> set cs. res = Some c \<and> GetRoadId c = GetRoadId p)
            else if \<exists>c \<in> set cs. GetRoadId c = n
            then res = find (\<lambda>c. GetRoadId c = n) (rev cs) \<and>
                 (\<exists>c \<in> set cs. res = Some c \<and> GetRoadId c = n)
            else res = None"
  proof (cases "\<exists>c \<in> set cs. GetRoadId c = GetRoadId p")
    case True
    have eq: "res = find (\<lambda>c. GetRoadId c = GetRoadId p) cs"
      unfolding res_def by (rule frontWaypoint_loop_this [OF True])
    obtain y where y: "find (\<lambda>c. GetRoadId c = GetRoadId p) cs = Some y"
      using find_ex_Some [of cs "\<lambda>c. GetRoadId c = GetRoadId p"] True by blast
    have "y \<in> set cs \<and> GetRoadId y = GetRoadId p"
      using find_Some_D [OF y] by simp
    with True eq y show ?thesis by auto
  next
    case False
    then have none: "\<forall>c \<in> set cs. GetRoadId c \<noteq> GetRoadId p" by blast
    have eq: "res = (case find (\<lambda>c. GetRoadId c = n) (rev cs) of
                       Some c \<Rightarrow> Some c | None \<Rightarrow> None)"
      unfolding res_def by (rule frontWaypoint_loop_next [OF none])
    then have eq': "res = find (\<lambda>c. GetRoadId c = n) (rev cs)"
      by (simp split: option.splits)
    show ?thesis
    proof (cases "\<exists>c \<in> set cs. GetRoadId c = n")
      case True
      then have "\<exists>c \<in> set (rev cs). GetRoadId c = n" by simp
      then obtain y where y: "find (\<lambda>c. GetRoadId c = n) (rev cs) = Some y"
        using find_ex_Some [of "rev cs" "\<lambda>c. GetRoadId c = n"] by blast
      have "y \<in> set (rev cs) \<and> GetRoadId y = n"
        using find_Some_D [OF y] by simp
      with True False eq' y show ?thesis by auto
    next
      case nextless: False
      have "find (\<lambda>c. GetRoadId c = n) (rev cs) = None"
      proof (cases "find (\<lambda>c. GetRoadId c = n) (rev cs)")
        case None
        then show ?thesis .
      next
        case (Some y)
        from find_Some_D [OF Some] nextless show ?thesis by auto
      qed
      with False nextless eq' show ?thesis by simp
    qed
  qed
  from n fw sel show ?thesis unfolding cs_def by blast
qed

theorem frontWaypoint_on_route_witness:
  "GetRoadId (wp 1 47) \<in> set (road_sequence LoopRouter) \<and> gt_zero (Finite 1) \<and>
   frontWaypoint LoopRouter (fork [wp 2 558, wp 3 47, wp 4 47]) (wp 1 47) (Finite 1) []
     = (Inr (Some (wp 3 47)), [(wp 1 47, Finite 1)]) \<and>
   frontWaypoint LoopRouter (fork [wp 2 558, wp 3 9, wp 4 558]) (wp 1 47) (Finite 1) []
     = (Inr (Some (wp 4 558)), [(wp 1 47, Finite 1)]) \<and>
   frontWaypoint LoopRouter (fork [wp 2 48, wp 3 9]) (wp 1 47) (Finite 1) []
     = (Inr None, [(wp 1 47, Finite 1)])"
proof -
  have on_route: "GetRoadId (wp 1 47) \<in> set (road_sequence LoopRouter)"
    by (simp add: wp_def LoopRouter_def)
  have pos: "gt_zero (Finite 1)" by simp
  have nxt: "nextRoad LoopRouter (GetRoadId (wp 1 47)) = Inr (Some 558)"
    by (simp add: nextRoad_def LoopRouter_def wp_def)
  have a: "frontWaypoint LoopRouter (fork [wp 2 558, wp 3 47, wp 4 47]) (wp 1 47) (Finite 1) []
             = (Inr (Some (wp 3 47)), [(wp 1 47, Finite 1)])"
    using frontWaypoint_on_route [OF on_route pos, of "fork [wp 2 558, wp 3 47, wp 4 47]" "[]"] nxt
    by (simp add: fork_def wp_def)
  have b: "frontWaypoint LoopRouter (fork [wp 2 558, wp 3 9, wp 4 558]) (wp 1 47) (Finite 1) []
             = (Inr (Some (wp 4 558)), [(wp 1 47, Finite 1)])"
    using frontWaypoint_on_route [OF on_route pos, of "fork [wp 2 558, wp 3 9, wp 4 558]" "[]"] nxt
    by (simp add: fork_def wp_def)
  have c: "frontWaypoint LoopRouter (fork [wp 2 48, wp 3 9]) (wp 1 47) (Finite 1) []
             = (Inr None, [(wp 1 47, Finite 1)])"
    using frontWaypoint_on_route [OF on_route pos, of "fork [wp 2 48, wp 3 9]" "[]"] nxt
    by (simp add: fork_def wp_def)
  from on_route pos a b c show ?thesis by simp
qed

text \<open>
  C2. On the configured cycle, \<open>nextRoad\<close> of the last road is the first road and
  \<open>prevRoad\<close> of the first road is the last one; the cycle starts 47, 558, 48, 887 and
  ends 46, 659, and \<open>nextRoad 47 = 558\<close>, \<open>prevRoad 558 = 47\<close>, \<open>nextRoad 659 = 47\<close>,
  \<open>prevRoad 47 = 659\<close>.
\<close>

theorem nextRoad_prevRoad_wrap:
  "nextRoad LoopRouter (last (road_sequence LoopRouter))
     = Inr (Some (hd (road_sequence LoopRouter))) \<and>
   prevRoad LoopRouter (hd (road_sequence LoopRouter))
     = Inr (Some (last (road_sequence LoopRouter))) \<and>
   take 4 (road_sequence LoopRouter) = [47, 558, 48, 887] \<and>
   drop (length (road_sequence LoopRouter) - 2) (road_sequence LoopRouter) = [46, 659] \<and>
   nextRoad LoopRouter 47 = Inr (Some 558) \<and>
   prevRoad LoopRouter 558 = Inr (Some 47) \<and>
   nextRoad LoopRouter 659 = Inr (Some 47) \<and>
   prevRoad LoopRouter 47 = Inr (Some 659)"
  by (simp add: nextRoad_def prevRoad_def LoopRouter_def)

text \<open>
  C3. For a road that is not in the router's cycle, \<open>nextRoad\<close> and \<open>prevRoad\<close> throw
  \<open>std::out_of_range\<close> (NotOnRoute) and return no value; the overloads on a waypoint pass
  the exception on to their caller.
\<close>

theorem not_on_route_throws:
  assumes "s \<notin> set (road_sequence r)"
  shows "nextRoad r s = Inl (out_of_range ''Given road is not on route'') \<and>
         prevRoad r s = Inl (out_of_range ''Given road is not on route'') \<and>
         (GetRoadId w = s \<longrightarrow>
            nextRoad_waypoint r w = Inl (out_of_range ''Given road is not on route'') \<and>
            prevRoad_waypoint r w = Inl (out_of_range ''Given road is not on route''))"
  using assms
  by (simp add: nextRoad_not_on_route prevRoad_not_on_route
        nextRoad_waypoint_def prevRoad_waypoint_def)

theorem not_on_route_throws_witness:
  "1 \<notin> set (road_sequence LoopRouter) \<and>
   nextRoad LoopRouter 1 = Inl (out_of_range ''Given road is not on route'') \<and>
   prevRoad LoopRouter 1 = Inl (out_of_range ''Given road is not on route'') \<and>
   GetRoadId (wp 7 1) = 1 \<and>
   nextRoad_waypoint LoopRouter (wp 7 1) = Inl (out_of_range ''Given road is not on route'') \<and>
   prevRoad_waypoint LoopRouter (wp 7 1) = Inl (out_of_range ''Given road is not on route'')"
proof -
  have h: "1 \<notin> set (road_sequence LoopRouter)"
    by (simp add: LoopRouter_def)
  have w: "GetRoadId (wp 7 1) = 1" by (simp add: wp_def)
  from not_on_route_throws [OF h, of "wp 7 1"] h w show ?thesis by simp
qed

text \<open>
  C4. For every road \<open>s\<close> of the configured cycle, \<open>prevRoad s\<close> returns a road \<open>p\<close> with
  \<open>nextRoad p = s\<close>, and \<open>nextRoad s\<close> returns a road \<open>n\<close> with \<open>prevRoad n = s\<close>: the two
  are inverse to each other on the cycle, also across the wrap-around.
\<close>

theorem nextRoad_prevRoad_inverse:
  assumes "s \<in> set (road_sequence LoopRouter)"
  shows "(\<exists>p. prevRoad LoopRouter s = Inr (Some p) \<and> nextRoad LoopRouter p = Inr (Some s)) \<and>
         (\<exists>n. nextRoad LoopRouter s = Inr (Some n) \<and> prevRoad LoopRouter n = Inr (Some s))"
  using nextRoad_prevRoad_distinct [OF LoopRouter_distinct assms]
        prevRoad_nextRoad_distinct [OF LoopRouter_distinct assms]
  by simp

theorem nextRoad_prevRoad_inverse_witness:
  "47 \<in> set (road_sequence LoopRouter) \<and>
   prevRoad LoopRouter 47 = Inr (Some 659) \<and> nextRoad LoopRouter 659 = Inr (Some 47) \<and>
   nextRoad LoopRouter 47 = Inr (Some 558) \<and> prevRoad LoopRouter 558 = Inr (Some 47)"
proof -
  have h: "47 \<in> set (road_sequence LoopRouter)"
    by (simp add: LoopRouter_def)
  have p: "prevRoad LoopRouter 47 = Inr (Some 659)"
    by (simp add: prevRoad_def LoopRouter_def)
  have n: "nextRoad LoopRouter 47 = Inr (Some 558)"
    by (simp add: nextRoad_def LoopRouter_def)
  from nextRoad_prevRoad_inverse [OF h] h p n show ?thesis by simp
qed

text \<open>
  C5. \<open>waypointOnRoute\<close> queries the topology once, for the waypoints within 0.01 of the
  given one, and returns without throwing the first of them, in the order listed, whose
  road is in the router's cycle; it returns the absent result when there is none.
\<close>

theorem waypointOnRoute_first_on_route:
  "waypointOnRoute r topo p tr =
     (Inr (find (\<lambda>c. GetRoadId c \<in> set (road_sequence r)) (topo p (Finite (1 / 100)))),
      tr @ [(p, Finite (1 / 100))])"
  by (simp add: waypointOnRoute_def GetNext_def waypointOnRoute_loop_find)

text \<open>
  C6. For a distance \<open>d\<close> with \<open>d <= 0.0\<close>, \<open>frontWaypoint\<close> throws
  \<open>std::runtime_error\<close> (InvalidArgument) and has not queried the topology: the trace of
  queries is unchanged. It returns neither a waypoint nor the absent result.
\<close>

theorem frontWaypoint_invalid_distance:
  assumes "le_zero d"
  shows "frontWaypoint r topo p d tr
           = (Inl (runtime_error ''Invaid distance when looking for front waypoint.''), tr)"
  using assms by (simp add: frontWaypoint_def)

theorem frontWaypoint_invalid_distance_witness:
  "le_zero (Finite 0) \<and> le_zero (Finite (- 5)) \<and>
   frontWaypoint LoopRouter (fork [wp 3 47]) (wp 1 47) (Finite 0) []
     = (Inl (runtime_error ''Invaid distance when looking for front waypoint.''), []) \<and>
   frontWaypoint LoopRouter (fork [wp 3 47]) (wp 1 47) (Finite (- 5)) []
     = (Inl (runtime_error ''Invaid distance when looking for front waypoint.''), [])"
proof -
  have z: "le_zero (Finite 0)" and m: "le_zero (Finite (- 5))" by simp_all
  from frontWaypoint_invalid_distance [OF z, of LoopRouter "fork [wp 3 47]" "wp 1 47" "[]"]
       frontWaypoint_invalid_distance [OF m, of LoopRouter "fork [wp 3 47]" "wp 1 47" "[]"]
       z m
  show ?thesis by simp
qed

text \<open>
  C9. For a waypoint whose road is not in the router's cycle and a distance greater than
  zero, \<open>frontWaypoint\<close> queries the topology and then throws \<open>std::out_of_range\<close>
  (NotOnRoute) from \<open>nextRoad\<close>, whatever the candidates are, also when one of them is on
  the waypoint's own road; it does not return the absent result.
\<close>

theorem frontWaypoint_off_route_throws:
  assumes "GetRoadId p \<notin> set (road_sequence r)" and "gt_zero d"
  shows "frontWaypoint r topo p d tr
           = (Inl (out_of_range ''Given road is not on route''), tr @ [(p, d)])"
  using assms gt_zero_not_le_zero [of d]
  by (simp add: frontWaypoint_def GetNext_def nextRoad_not_on_route)

theorem frontWaypoint_off_route_throws_witness:
  "GetRoadId (wp 1 9) \<notin> set (road_sequence LoopRouter) \<and> gt_zero (Finite 2) \<and>
   wp 2 9 \<in> set (fork [wp 2 9] (wp 1 9) (Finite 2)) \<and> GetRoadId (wp 2 9) = GetRoadId (wp 1 9) \<and>
   frontWaypoint LoopRouter (fork [wp 2 9]) (wp 1 9) (Finite 2) []
     = (Inl (out_of_range ''Given road is not on route''), [(wp 1 9, Finite 2)])"
proof -
  have h: "GetRoadId (wp 1 9) \<notin> set (road_sequence LoopRouter)"
    by (simp add: wp_def LoopRouter_def)
  have pos: "gt_zero (Finite 2)" by simp
  from frontWaypoint_off_route_throws [OF h pos, of "fork [wp 2 9]" "[]"] h pos
  show ?thesis by (simp add: fork_def wp_def)
qed

text \<open>
  C10. \<open>nextRoad\<close> and \<open>prevRoad\<close> never return the disengaged optional: for every router
  and every road, the outcome is either the exception or an engaged value.
\<close>

theorem nextRoad_prevRoad_engaged:
  "nextRoad r s \<noteq> Inr None \<and> prevRoad r s \<noteq> Inr None \<and>
   (\<exists>v. nextRoad r s = Inr (Some v) \<or> nextRoad r s = Inl (out_of_range ''Given road is not on route'')) \<and>
   (\<exists>v. prevRoad r s = Inr (Some v) \<or> prevRoad r s = Inl (out_of_range ''Given road is not on route''))"
  by (simp add: nextRoad_def prevRoad_def Let_def)

section \<open>Properties of the lattice\<close>

subsection \<open>Walking the front links\<close>


text \<open>With a resolution greater than zero every walk returns, and so do the queries.\<close>

lemma walk_returns:
  assumes res: "0 < longitudinal_resolution L"
  shows "\<exists>y. walk link L r n acc = Some y"
proof (induction "nat \<lceil>(r - acc) / longitudinal_resolution L\<rceil>" arbitrary: n acc rule: less_induct)
  case less
  show ?case
  proof (cases "r \<le> acc")
    case True
    then show ?thesis by (subst walk.simps) simp
  next
    case False
    let ?d = "longitudinal_resolution L"
    have pos: "0 < (r - acc) / ?d" using False res by simp
    have "(r - (acc + ?d)) / ?d = (r - acc) / ?d - 1"
      using res by (simp add: field_simps)
    then have "\<lceil>(r - (acc + ?d)) / ?d\<rceil> = \<lceil>(r - acc) / ?d\<rceil> - 1"
      by simp
    moreover have "0 < \<lceil>(r - acc) / ?d\<rceil>" using pos by simp
    ultimately have dec: "nat \<lceil>(r - (acc + ?d)) / ?d\<rceil> < nat \<lceil>(r - acc) / ?d\<rceil>"
      by simp
    show ?thesis
    proof (cases "node L n")
      case None
      with False show ?thesis by (subst walk.simps) simp
    next
      case (Some nd)
      show ?thesis
      proof (cases "link nd")
        case None
        with False Some show ?thesis by (subst walk.simps) simp
      next
        case (Some m)
        from less [OF dec, of m] obtain y where "walk link L r m (acc + ?d) = Some y" by blast
        with False \<open>node L n = Some nd\<close> Some show ?thesis by (subst walk.simps) simp
      qed
    qed
  qed
qed

lemma queries_return:
  assumes "0 < longitudinal_resolution L"
  shows "(\<exists>y. front hashCombine pdist tolerance L q r = Some y) \<and>
         (\<exists>y. leftFront hashCombine pdist tolerance L q r = Some y) \<and>
         (\<exists>y. frontLeft hashCombine pdist tolerance L q r = Some y)"
proof -
  have w: "\<exists>y. walk front_link L r n 0 = Some y" for n
    by (rule walk_returns [OF assms])
  have "\<exists>y. front hashCombine pdist tolerance L q r = Some y"
    using w by (simp add: front_def split: option.splits)
  moreover have "\<exists>y. leftFront hashCombine pdist tolerance L q r = Some y"
    using w by (simp add: leftFront_def split: option.splits)
  moreover have "\<exists>y. frontLeft hashCombine pdist tolerance L q r = Some y"
  proof (cases "closestNode hashCombine pdist L q tolerance")
    case None
    then show ?thesis by (simp add: frontLeft_def)
  next
    case (Some n)
    from w [of n] obtain y where y: "walk front_link L r n 0 = Some y" by blast
    show ?thesis using Some y by (simp add: frontLeft_def split: option.splits)
  qed
  ultimately show ?thesis by simp
qed












lemma split_lane_not_commute: "\<not> links_commute split_lane"
  by (simp add: links_commute_def split_lane_def ex_node_def node_def)

text \<open>
  Where the left lane begins later, the links commute and the two queries differ in
  presence: \<open>leftFront\<close> finds no left neighbour at the query and is absent, \<open>frontLeft\<close>
  finds one at the end of the walk.
\<close>

lemma late_lane_differ_in_presence:
  "links_commute late_lane \<and> links_symmetric late_lane \<and> distances_regular late_lane \<and>
   leftFront ex_hash ex_metric (1 / 5) late_lane (lane_wp 10 47 1) 2 = Some None \<and>
   frontLeft ex_hash ex_metric (1 / 5) late_lane (lane_wp 10 47 1) 2 = Some (Some 22)"
proof -
  have g: "links_commute late_lane \<and> links_symmetric late_lane \<and> distances_regular late_lane"
    by (simp add: links_commute_def links_symmetric_def distances_regular_def late_lane_def
          ex_node_def node_def)
  have c: "closestNode ex_hash ex_metric late_lane (lane_wp 10 47 1) (1 / 5) = Some 10"
    by (simp add: closestNode_def late_lane_def ex_node_def ex_hash_def ex_metric_def
          lane_wp_def node_def closer_def)
  have lf: "leftFront ex_hash ex_metric (1 / 5) late_lane (lane_wp 10 47 1) 2 = Some None"
    by (simp add: leftFront_def c) (simp add: late_lane_def ex_node_def node_def)
  have fl: "frontLeft ex_hash ex_metric (1 / 5) late_lane (lane_wp 10 47 1) 2 = Some (Some 22)"
    by (simp add: frontLeft_def c) (simp add: late_lane_def ex_node_def node_def walk.simps)
  from g lf fl show ?thesis by simp
qed

subsection \<open>Removing nodes\<close>

lemma keys_node: "distinct (map fst (waypoint_to_node_table L)) \<Longrightarrow>
   (i, nd) \<in> set (waypoint_to_node_table L) \<longleftrightarrow> node L i = Some nd"
  by (simp add: node_def)

lemma keys_iff_node: "i \<in> keys L \<longleftrightarrow> (\<exists>nd. node L i = Some nd)"
  by (metis node_def keys_def map_of_eq_None_iff not_Some_eq)

lemma unlink_distance:
  assumes "\<And>v. distance (clear v) = distance v"
  shows "map_option distance (map_of (unlink x clear t) j) = map_option distance (map_of t j)"
  using assms by (cases x) (auto simp: unlink_def map_of_map_entry split: option.splits)

lemma unlink_distinct:
  "distinct (map fst t) \<Longrightarrow> distinct (map fst (unlink x clear t))"
  by (cases x) (simp_all add: unlink_def distinct_map_entry)

lemma reduceRoadlane_table [simp]:
  "waypoint_to_node_table (reduceRoadlaneToWaypointsTable h L w) = waypoint_to_node_table L"
  by (simp add: reduceRoadlaneToWaypointsTable_def Let_def)

lemma reduceRoadlane_entry [simp]:
  "lattice_entry (reduceRoadlaneToWaypointsTable h L w) = lattice_entry L"
  by (simp add: reduceRoadlaneToWaypointsTable_def Let_def)

lemma removeNode_entry [simp]: "lattice_entry (removeNode h i L) = lattice_entry L"
  by (simp add: removeNode_def reduceWaypointToNodeTable_def Let_def split: option.splits)

lemma removeNode_distance:
  "map_option distance (node (removeNode h i L) j) =
     (if j = i then None else map_option distance (node L j))"
proof (cases "node L i")
  case None
  then show ?thesis by (auto simp: removeNode_def)
next
  case (Some nd)
  let ?t1 = "unlink (back_link nd) (\<lambda>b. b\<lparr> front_link := None \<rparr>) (waypoint_to_node_table L)"
  let ?t2 = "unlink (left_link nd) (\<lambda>l. l\<lparr> right_link := None \<rparr>) ?t1"
  let ?t3 = "unlink (right_link nd) (\<lambda>r. r\<lparr> left_link := None \<rparr>) ?t2"
  have "map_option distance (map_of ?t3 j) = map_option distance (map_of (waypoint_to_node_table L) j)"
    by (simp add: unlink_distance)
  moreover have "node (removeNode h i L) j = ((map_of ?t3)(i := None)) j"
    using Some by (simp add: removeNode_def reduceWaypointToNodeTable_def Let_def node_def delete_conv')
  ultimately show ?thesis by (simp add: node_def)
qed

lemma removeNode_distinct:
  "distinct (map fst (waypoint_to_node_table L)) \<Longrightarrow>
   distinct (map fst (waypoint_to_node_table (removeNode h i L)))"
  by (simp add: removeNode_def reduceWaypointToNodeTable_def Let_def unlink_distinct
        distinct_delete split: option.splits)

lemma fold_removeNode_entry [simp]: "lattice_entry (fold (removeNode h) is L) = lattice_entry L"
  by (induction "is" arbitrary: L) simp_all

lemma fold_removeNode_distinct:
  "distinct (map fst (waypoint_to_node_table L)) \<Longrightarrow>
   distinct (map fst (waypoint_to_node_table (fold (removeNode h) is L)))"
  by (induction "is" arbitrary: L) (simp_all add: removeNode_distinct)

lemma fold_removeNode_distance:
  "map_option distance (node (fold (removeNode h) is L) j) =
     (if j \<in> set is then None else map_option distance (node L j))"
  by (induction "is" arbitrary: L) (simp_all add: removeNode_distance)

lemma farthest_None: "farthest t = None \<longleftrightarrow> t = []"
  by (induction t rule: farthest.induct) (auto split: option.splits)

lemma farthest_Some:
  "farthest t = Some (x, xd) \<Longrightarrow>
   (x, xd) \<in> set t \<and> (\<forall>(j, md) \<in> set t. distance md \<le> distance xd)"
proof (induction t arbitrary: x xd rule: farthest.induct)
  case 1
  then show ?case by simp
next
  case (2 i nd rest)
  show ?case
  proof (cases "farthest rest")
    case None
    then have "rest = []" by (simp add: farthest_None)
    with 2 None show ?thesis by auto
  next
    case (Some p)
    obtain j md where p: "p = (j, md)" by (cases p)
    from "2.IH" [of j md] Some p have
      IH: "(j, md) \<in> set rest \<and> (\<forall>(k, kd) \<in> set rest. distance kd \<le> distance md)" by simp
    show ?thesis
    proof (cases "distance nd < distance md")
      case True
      with "2.prems" Some p have "x = j" "xd = md" by simp_all
      with IH True show ?thesis by auto
    next
      case False
      with "2.prems" Some p have "x = i" "xd = nd" by simp_all
      with IH False show ?thesis by fastforce
    qed
  qed
qed

lemma node_distance_SomeD:
  "map_option distance (node L j) = Some d \<Longrightarrow> \<exists>nd. node L j = Some nd \<and> distance nd = d"
  by (cases "node L j") auto

lemma shorten_range:
  assumes ok: "lattice_ok M" and R: "0 \<le> R"
      and x: "node M x = Some xd" and xd: "distance xd = distance (latticeEntry M) + R"
      and far: "\<forall>(i, nd) \<in> set (waypoint_to_node_table M). distance nd \<le> distance (latticeExit M)"
  shows "\<exists>M'. shorten h M R = Inr M' \<and> lattice_ok M' \<and>
               lattice_entry M' = lattice_entry M \<and> lattice_range M' = R"
proof -
  have dist: "distinct (map fst (waypoint_to_node_table M))"
    using ok by (simp add: lattice_ok_def)
  obtain ed where ed: "node M (lattice_entry M) = Some ed"
    using ok keys_iff_node [of "lattice_entry M" M] by (auto simp: lattice_ok_def keys_def)
  have entry: "latticeEntry M = ed" using ed by (simp add: latticeEntry_def)
  have "(x, xd) \<in> set (waypoint_to_node_table M)"
    using x dist by (simp add: keys_node)
  with far have x_le: "distance xd \<le> distance (latticeExit M)" by auto
  then have range_ge: "R \<le> lattice_range M"
    using xd by (simp add: lattice_range_def)
  show ?thesis
  proof (cases "lattice_range M \<le> R")
    case True
    with range_ge have "lattice_range M = R" by simp
    with True ok show ?thesis by (simp add: shorten_def)
  next
    case False
    define bound where "bound = distance (latticeEntry M) + R"
    define beyond where
      "beyond = filter (\<lambda>(i, nd). bound < distance nd) (waypoint_to_node_table M)"
    define ordered where
      "ordered = map fst (rev (sort_key (\<lambda>(i, nd). distance nd) beyond))"
    define M1 where "M1 = fold (removeNode h) ordered M"
    have ordered_iff: "j \<in> set ordered \<longleftrightarrow> (\<exists>nd. node M j = Some nd \<and> bound < distance nd)" for j
    proof -
      have "j \<in> set ordered \<longleftrightarrow> (\<exists>nd. (j, nd) \<in> set (waypoint_to_node_table M) \<and> bound < distance nd)"
        by (auto simp: ordered_def beyond_def intro: rev_image_eqI)
      then show ?thesis using dist by (simp add: keys_node)
    qed
    have M1_dist: "map_option distance (node M1 j) =
        (if j \<in> set ordered then None else map_option distance (node M j))" for j
      unfolding M1_def by (rule fold_removeNode_distance)
    have M1_distinct: "distinct (map fst (waypoint_to_node_table M1))"
      unfolding M1_def by (rule fold_removeNode_distinct [OF dist])
    have M1_entry: "lattice_entry M1 = lattice_entry M"
      unfolding M1_def by simp
    have "lattice_entry M \<notin> set ordered"
      using ed entry R by (auto simp: ordered_iff bound_def)
    then have "map_option distance (node M1 (lattice_entry M)) = Some (distance ed)"
      using ed by (simp add: M1_dist)
    then obtain ed1 where ed1: "node M1 (lattice_entry M) = Some ed1"
      and ed1_d: "distance ed1 = distance ed"
      using node_distance_SomeD by blast
    have "x \<notin> set ordered"
      using x xd by (auto simp: ordered_iff bound_def)
    then have "map_option distance (node M1 x) = Some (distance xd)"
      using x by (simp add: M1_dist)
    then obtain xd1 where xd1: "node M1 x = Some xd1" and xd1_d: "distance xd1 = distance xd"
      using node_distance_SomeD by blast
    have x_in: "(x, xd1) \<in> set (waypoint_to_node_table M1)"
      using xd1 M1_distinct by (simp add: keys_node)
    then have "farthest (waypoint_to_node_table M1) \<noteq> None"
      by (auto simp: farthest_None)
    then obtain y yd where far1: "farthest (waypoint_to_node_table M1) = Some (y, yd)"
      by (cases "farthest (waypoint_to_node_table M1)") auto
    from farthest_Some [OF far1] have y_in: "(y, yd) \<in> set (waypoint_to_node_table M1)"
      and y_max: "\<forall>(j, md) \<in> set (waypoint_to_node_table M1). distance md \<le> distance yd"
      by simp_all
    have y_node: "node M1 y = Some yd"
      using y_in M1_distinct by (simp add: keys_node)
    have y_ge: "bound \<le> distance yd"
      using y_max x_in xd1_d xd by (auto simp: bound_def)
    have y_not: "y \<notin> set ordered"
      using y_node M1_dist [of y] by (auto split: if_splits)
    then have "map_option distance (node M y) = Some (distance yd)"
      using y_node M1_dist [of y] by simp
    then obtain yd0 where "node M y = Some yd0" and "distance yd0 = distance yd"
      using node_distance_SomeD by blast
    with y_not have y_le: "distance yd \<le> bound"
      by (auto simp: ordered_iff)
    define M' where "M' = M1\<lparr> lattice_exit := y \<rparr>"
    have sh: "shorten h M R = Inr M'"
      using False far1
      by (simp add: shorten_def Let_def M'_def M1_def ordered_def beyond_def bound_def)
    have ok': "lattice_ok M'"
      using M1_distinct y_in ed1 M1_entry keys_iff_node [of "lattice_entry M" M1]
      by (auto simp: lattice_ok_def M'_def keys_def intro: rev_image_eqI)
    have "latticeExit M' = yd"
      using y_node by (simp add: latticeExit_def M'_def node_def)
    moreover have "latticeEntry M' = ed1"
      using ed1 M1_entry by (simp add: latticeEntry_def M'_def node_def)
    ultimately have "lattice_range M' = R"
      using y_le y_ge ed1_d entry by (simp add: lattice_range_def bound_def)
    with sh ok' M1_entry show ?thesis by (auto simp: M'_def)
  qed
qed

text \<open>\<open>shift\<close> is \<open>extend\<close> followed by \<open>shorten\<close>, for every pair of the two.\<close>

lemma shift_unfold:
  "shift extend' shorten' L movement =
     (case extend' L (lattice_range L + movement) of
        Inl e \<Rightarrow> Inl e
      | Inr L1 \<Rightarrow> shorten' L1 (lattice_range L))"
  unfolding shift_def lattice_range_def Let_def by (rule refl)

subsection \<open>The example lattices\<close>

lemma two_lanes_ok: "lattice_ok two_lanes"
  by (simp add: lattice_ok_def two_lanes_def ex_node_def)

lemma two_lanes_range: "lattice_range two_lanes = 2"
  by (simp add: lattice_range_def latticeExit_def latticeEntry_def node_def two_lanes_def ex_node_def)

lemma ex_extend_two_lanes: "ex_extend two_lanes 3 = Inr three_steps"
  by (simp add: ex_extend_def two_lanes_range)
     (simp add: two_lanes_def three_steps_def add_node_def set_front_def ex_node_def ex_hash_def
        lane_wp_def augmentWaypointToNodeTable_def augmentRoadlaneToWaypointsTable_def)

lemma three_steps_post: "extend_post two_lanes 3 three_steps"
  by (simp add: extend_post_def two_lanes_range)
     (simp add: two_lanes_def three_steps_def ex_node_def lattice_ok_def node_def latticeExit_def)

lemma three_steps_range: "lattice_range three_steps = 3"
  by (simp add: lattice_range_def latticeExit_def latticeEntry_def node_def three_steps_def ex_node_def)

lemma shorten_three_steps: "shorten ex_hash three_steps 2 = Inr two_lanes"
  apply (simp add: shorten_def three_steps_range)
  apply (simp add: three_steps_def two_lanes_def ex_node_def latticeEntry_def node_def
      removeNode_def unlink_def reduceWaypointToNodeTable_def reduceRoadlaneToWaypointsTable_def
      ex_hash_def lane_wp_def)
  done

subsection \<open>Claim on \<open>shift\<close>\<close>

text \<open>
  C7. For every movement, \<open>shift\<close> calls \<open>extend\<close> with the range plus the movement and
  then \<open>shorten\<close> with the range, where the range is the distance of the exit minus the
  distance of the entry before the call. With \<open>shorten\<close> as the specification describes
  it, and an \<open>extend\<close> that returns and does what the specification says of it, a movement
  greater than zero and less than the range leaves the distance of the exit minus the
  distance of the entry equal to the range of before.
\<close>

theorem shift_preserves_range:
  assumes ok: "lattice_ok L"
      and pos: "0 < movement" and lt: "movement < lattice_range L"
      and ext: "extend' L (lattice_range L + movement) = Inr E"
      and post: "extend_post L (lattice_range L + movement) E"
  shows "shift extend' shorten' L mv =
           (case extend' L (lattice_range L + mv) of
              Inl e \<Rightarrow> Inl e
            | Inr M \<Rightarrow> shorten' M (lattice_range L)) \<and>
         shift extend' (shorten hashCombine) L movement
           = shorten hashCombine E (lattice_range L) \<and>
         (\<exists>L2. shift extend' (shorten hashCombine) L movement = Inr L2 \<and>
               lattice_ok L2 \<and>
               distance (latticeExit L2) - distance (latticeEntry L2)
                 = distance (latticeExit L) - distance (latticeEntry L))"
proof -
  define R where "R = lattice_range L"
  have dist: "distinct (map fst (waypoint_to_node_table L))"
    using ok by (simp add: lattice_ok_def)
  from pos have "\<not> R + movement \<le> R" by simp
  with post have ok1: "lattice_ok E"
    and entry1: "lattice_entry E = lattice_entry L"
    and kept: "\<forall>(i, nd) \<in> set (waypoint_to_node_table L).
                 case node E i of None \<Rightarrow> False
                 | Some nd1 \<Rightarrow> waypoint nd1 = waypoint nd \<and> distance nd1 = distance nd"
    and far: "\<forall>(i, nd1) \<in> set (waypoint_to_node_table E).
                 distance nd1 \<le> distance (latticeExit E)"
    by (simp_all add: extend_post_def R_def)
  have keep: "\<exists>nd1. node E i = Some nd1 \<and> distance nd1 = distance nd"
    if "node L i = Some nd" for i nd
  proof -
    from that dist have "(i, nd) \<in> set (waypoint_to_node_table L)"
      by (simp add: keys_node)
    with kept show ?thesis by (auto split: option.splits)
  qed
  obtain ed where ed: "node L (lattice_entry L) = Some ed"
    using ok keys_iff_node [of "lattice_entry L" L] by (auto simp: lattice_ok_def keys_def)
  obtain xd where xd: "node L (lattice_exit L) = Some xd"
    using ok keys_iff_node [of "lattice_exit L" L] by (auto simp: lattice_ok_def keys_def)
  from keep [OF ed] obtain ed1 where ed1: "node E (lattice_entry L) = Some ed1"
    and ed1_d: "distance ed1 = distance ed" by blast
  from keep [OF xd] obtain xd1 where xd1: "node E (lattice_exit L) = Some xd1"
    and xd1_d: "distance xd1 = distance xd" by blast
  have R_eq: "R = distance xd - distance ed"
    using ed xd by (simp add: R_def lattice_range_def latticeExit_def latticeEntry_def)
  have "latticeEntry E = ed1"
    using ed1 entry1 by (simp add: latticeEntry_def)
  then have at: "distance xd1 = distance (latticeEntry E) + R"
    using xd1_d ed1_d R_eq by simp
  have R0: "0 \<le> R" using pos lt by (simp add: R_def)
  from shorten_range [OF ok1 R0 xd1 at far, of hashCombine]
  obtain L2 where L2: "shorten hashCombine E R = Inr L2" and ok2: "lattice_ok L2"
    and r2: "lattice_range L2 = R"
    by blast
  have comp: "shift extend' (shorten hashCombine) L movement = shorten hashCombine E R"
    using ext by (simp add: shift_unfold R_def)
  have "distance (latticeExit L2) - distance (latticeEntry L2)
          = distance (latticeExit L) - distance (latticeEntry L)"
    using r2 by (simp add: R_def lattice_range_def)
  with comp L2 ok2 show ?thesis
    by (simp add: shift_unfold R_def [symmetric])
qed

theorem shift_preserves_range_witness:
  "lattice_ok two_lanes \<and> (0::real) < 1 \<and> 1 < lattice_range two_lanes \<and>
   ex_extend two_lanes (lattice_range two_lanes + 1) = Inr three_steps \<and>
   extend_post two_lanes (lattice_range two_lanes + 1) three_steps \<and>
   lattice_range three_steps = 3 \<and>
   shift ex_extend (shorten ex_hash) two_lanes 1 = Inr two_lanes \<and>
   distance (latticeExit two_lanes) - distance (latticeEntry two_lanes) = 2"
proof -
  have pos: "(0::real) < 1" by simp
  have lt: "1 < lattice_range two_lanes" by (simp add: two_lanes_range)
  have ext: "ex_extend two_lanes (lattice_range two_lanes + 1) = Inr three_steps"
    by (simp add: two_lanes_range ex_extend_two_lanes)
  have post: "extend_post two_lanes (lattice_range two_lanes + 1) three_steps"
    by (simp add: two_lanes_range three_steps_post)
  have r: "distance (latticeExit two_lanes) - distance (latticeEntry two_lanes) = 2"
    using two_lanes_range by (simp add: lattice_range_def)
  from shift_preserves_range [where L = two_lanes and movement = 1 and extend' = ex_extend
         and E = three_steps and hashCombine = ex_hash, OF two_lanes_ok pos lt ext post,
         THEN conjunct2, THEN conjunct1]
  have "shift ex_extend (shorten ex_hash) two_lanes 1 = shorten ex_hash three_steps 2"
    by (simp add: two_lanes_range)
  then have "shift ex_extend (shorten ex_hash) two_lanes 1 = Inr two_lanes"
    by (simp add: shorten_three_steps)
  with two_lanes_ok pos lt ext post r three_steps_range show ?thesis by simp
qed

end
